theory Spec2Isabelle
  imports Complex_Main "HOL-Library.Multiset"
begin

section \<open>Question answering using a search API and re-ranking\<close>

text \<open>
  A shallow embedding of the notebook
  \<^verbatim>\<open>examples/Question_answering_using_a_search_API.ipynb\<close>.
  The external capabilities (chat completion, \<^verbatim>\<open>json.loads\<close>, the embedding endpoint,
  \<^verbatim>\<open>requests.get\<close>, \<^verbatim>\<open>numpy.dot\<close>, Python's \<^verbatim>\<open>repr\<close>) are parameters of the
  functions that call them. Every Python exception the cells can raise on the
  modelled data is a value of \<open>error\<close>.
\<close>

subsection \<open>Data\<close>

datatype error =
    Exception string
  | KeyError string
  | IndexError
  | TypeError
  | AttributeError
  | JSONDecodeError

text \<open>
  An article of the search endpoint is a dictionary; the notebook reads the keys
  \<^verbatim>\<open>title\<close>, \<^verbatim>\<open>description\<close>, \<^verbatim>\<open>content\<close> and \<^verbatim>\<open>url\<close>. Whatever else the
  endpoint sends (source, author, date) is the record's extension \<open>'m\<close>.
\<close>

record article =
  title :: string
  description :: string
  content :: string
  url :: string

text \<open>
  The decoded search response: a dictionary in which each of the keys
  \<^verbatim>\<open>status\<close>, \<^verbatim>\<open>articles\<close> and \<^verbatim>\<open>message\<close> is present (\<open>Some\<close>) or absent.
\<close>

record 'm search_result =
  status :: "string option"
  articles :: "'m article_scheme list option"
  message :: "string option"

text \<open>The value \<^verbatim>\<open>json.loads\<close> returns.\<close>

datatype json =
    JNull
  | JBool bool
  | JNum real
  | JStr string
  | JArr "json list"
  | JObj "(string \<times> json) list"

record chat_request =
  model :: string
  messages :: "(string \<times> string) list"
  temperature :: real
  stream :: bool

definition GPT_MODEL :: string where
  "GPT_MODEL = ''gpt-3.5-turbo''"

subsection \<open>Helper functions\<close>

text \<open>
  \<^verbatim>\<open>completion.choices[0].message.content\<close>: a completion is the list of the contents
  of its choices; \<^verbatim>\<open>[0]\<close> on an empty list raises.
\<close>

definition first_choice :: "'a list \<Rightarrow> error + 'a" where
  "first_choice choices = (case choices of [] \<Rightarrow> Inl IndexError | c # _ \<Rightarrow> Inr c)"

definition json_gpt ::
  "(chat_request \<Rightarrow> string list) \<Rightarrow> (string \<Rightarrow> json option) \<Rightarrow> string \<Rightarrow> error + json" where
  "json_gpt create loads input =
     (case first_choice (create
        \<lparr>model = GPT_MODEL,
         messages = [(''system'', ''Output only valid JSON''), (''user'', input)],
         temperature = 1 / 2,
         stream = False\<rparr>) of
        Inl e \<Rightarrow> Inl e
      | Inr text \<Rightarrow> (case loads text of None \<Rightarrow> Inl JSONDecodeError | Some parsed \<Rightarrow> Inr parsed))"

text \<open>The argument of \<^verbatim>\<open>embeddings\<close>: the notebook passes a list of strings and a single string.\<close>

datatype embedding_input = Single string | Many "string list"

record 'v datum =
  embedding :: 'v

definition embeddings ::
  "(string \<Rightarrow> embedding_input \<Rightarrow> 'v datum list) \<Rightarrow> embedding_input \<Rightarrow> 'v list" where
  "embeddings embedding_create input =
     map embedding (embedding_create ''text-embedding-ada-002'' input)"

subsection \<open>Step 1: search\<close>

text \<open>\<^verbatim>\<open>parsed[key]\<close> with a string key: only a dictionary accepts it.\<close>

fun getitem :: "json \<Rightarrow> string \<Rightarrow> error + json" where
  "getitem (JObj d) k = (case map_of d k of None \<Rightarrow> Inl (KeyError k) | Some v \<Rightarrow> Inr v)"
| "getitem _ k = Inl TypeError"

text \<open>\<^verbatim>\<open>queries.append(x)\<close>: only a list has the method.\<close>

fun append_json :: "json \<Rightarrow> json \<Rightarrow> error + json list" where
  "append_json (JArr xs) x = Inr (xs @ [x])"
| "append_json _ x = Inl AttributeError"

definition QUERIES_INPUT :: "string \<Rightarrow> string" where
  \<open>QUERIES_INPUT user_question =
     (''\<newline>You have access to a search API that returns recent news articles.\<newline>'' @
      ''Generate an array of search queries that are relevant to this question.\<newline>'' @
      ''Use a variation of related keywords for the queries, trying to be as general as possible.\<newline>'' @
      ''Include as many queries as you can think of, including and excluding terms.\<newline>'' @
      ''For example, include queries like ['keyword_1 keyword_2', 'keyword_1', 'keyword_2'].\<newline>'' @
      ''Be creative. The more queries you include, the more likely you are to find relevant results.\<newline>'' @
      ''\<newline>User question: '') @
     user_question @
     ''\<newline>\<newline>Format: {"queries": ["query_1", "query_2", "query_3"]}\<newline>''\<close>

text \<open>The model-generated list: \<^verbatim>\<open>json_gpt(QUERIES_INPUT)["queries"]\<close>.\<close>

definition generated_queries ::
  "(chat_request \<Rightarrow> string list) \<Rightarrow> (string \<Rightarrow> json option) \<Rightarrow> string \<Rightarrow> error + json" where
  "generated_queries create loads user_question =
     (case json_gpt create loads (QUERIES_INPUT user_question) of
        Inl e \<Rightarrow> Inl e
      | Inr parsed \<Rightarrow> getitem parsed ''queries'')"

text \<open>The query cell: the generated list, then \<^verbatim>\<open>queries.append(USER_QUESTION)\<close>.\<close>

definition queries ::
  "(chat_request \<Rightarrow> string list) \<Rightarrow> (string \<Rightarrow> json option) \<Rightarrow> string \<Rightarrow> error + json list" where
  "queries create loads user_question =
     (case generated_queries create loads user_question of
        Inl e \<Rightarrow> Inl e
      | Inr qs \<Rightarrow> append_json qs (JStr user_question))"

record 'q search_params =
  q :: 'q
  apiKey :: string
  pageSize :: nat
  sortBy :: string
  from_param :: string
  to_param :: string

definition search_news ::
  "(string \<Rightarrow> 'q search_params \<Rightarrow> 'm search_result) \<Rightarrow> string \<Rightarrow> 'q \<Rightarrow> 'm search_result" where
  "search_news requests_get news_api_key query =
     requests_get ''https://newsapi.org/v2/everything''
       \<lparr>q = query, apiKey = news_api_key, pageSize = 50, sortBy = ''relevancy'',
        from_param = ''2023-06-01'', to_param = ''2023-06-30''\<rparr>"

text \<open>
  The search loop. Its state is the variable \<^verbatim>\<open>articles\<close> together with the list of
  the queries sent to the search capability so far, in the order of the calls. The loop
  returns the state it stopped in and the exception raised, if any.
\<close>

fun search_loop ::
  "('q \<Rightarrow> 'm search_result) \<Rightarrow> 'q list \<Rightarrow> 'm article_scheme list \<times> 'q list \<Rightarrow>
   ('m article_scheme list \<times> 'q list) \<times> error option" where
  "search_loop search [] (arts, sent) = ((arts, sent), None)"
| "search_loop search (query # rest) (arts, sent) =
     (let result = search query; sent' = sent @ [query] in
      case status result of
        None \<Rightarrow> ((arts, sent'), Some (KeyError ''status''))
      | Some s \<Rightarrow>
          if s = ''ok'' then
            (case articles result of
               None \<Rightarrow> ((arts, sent'), Some (KeyError ''articles''))
             | Some new \<Rightarrow> search_loop search rest (arts @ new, sent'))
          else
            (case message result of
               None \<Rightarrow> ((arts, sent'), Some (KeyError ''message''))
             | Some m \<Rightarrow> ((arts, sent'), Some (Exception m))))"

text \<open>
  A Python dictionary keeps its keys in the order of their first insertion; storing under
  a key that is present replaces the value and leaves the position. It is an association
  list with distinct keys.
\<close>

fun dict_setitem :: "('k \<times> 'v) list \<Rightarrow> 'k \<Rightarrow> 'v \<Rightarrow> ('k \<times> 'v) list" where
  "dict_setitem [] k v = [(k, v)]"
| "dict_setitem ((k', v') # d) k v =
     (if k' = k then (k', v) # d else (k', v') # dict_setitem d k v)"

text \<open>\<^verbatim>\<open>{article["url"]: article for article in articles}\<close>\<close>

definition url_dict :: "'m article_scheme list \<Rightarrow> (string \<times> 'm article_scheme) list" where
  "url_dict arts = fold (\<lambda>a d. dict_setitem d (url a) a) arts []"

definition dict_values :: "('k \<times> 'v) list \<Rightarrow> 'v list" where
  "dict_values d = map snd d"

text \<open>\<^verbatim>\<open>list({article["url"]: article for article in articles}.values())\<close>\<close>

definition remove_duplicates :: "'m article_scheme list \<Rightarrow> 'm article_scheme list" where
  "remove_duplicates arts = dict_values (url_dict arts)"

text \<open>
  The search cell: the loop from the empty list, then the removal of duplicates. An
  exception of the loop ends the cell; the statement after the loop does not run.
\<close>

definition search_cell ::
  "('q \<Rightarrow> 'm search_result) \<Rightarrow> 'q list \<Rightarrow> error + 'm article_scheme list" where
  "search_cell search qs =
     (case search_loop search qs ([], []) of
        (_, Some e) \<Rightarrow> Inl e
      | ((arts, _), None) \<Rightarrow> Inr (remove_duplicates arts))"

subsection \<open>Step 2: re-rank\<close>

text \<open>\<^verbatim>\<open>f"{article['title']} {article['description']} {article['content'][0:100]}"\<close>\<close>

definition article_text :: "'m article_scheme \<Rightarrow> string" where
  "article_text a = title a @ '' '' @ description a @ '' '' @ take 100 (content a)"

definition article_embeddings ::
  "(string \<Rightarrow> embedding_input \<Rightarrow> 'v datum list) \<Rightarrow> 'm article_scheme list \<Rightarrow> 'v list" where
  "article_embeddings embedding_create arts =
     embeddings embedding_create (Many (map article_text arts))"

definition hypothetical_answer_embedding ::
  "(string \<Rightarrow> embedding_input \<Rightarrow> 'v datum list) \<Rightarrow> string \<Rightarrow> error + 'v" where
  "hypothetical_answer_embedding embedding_create hypothetical_answer =
     first_choice (embeddings embedding_create (Single hypothetical_answer))"

text \<open>The loop that appends one score per article embedding.\<close>

definition cosine_similarities :: "('v \<Rightarrow> 'v \<Rightarrow> 's) \<Rightarrow> 'v \<Rightarrow> 'v list \<Rightarrow> 's list" where
  "cosine_similarities dot ha_embedding embs =
     fold (\<lambda>article_embedding acc. acc @ [dot ha_embedding article_embedding]) embs []"

definition scored_articles :: "'a list \<Rightarrow> 's list \<Rightarrow> ('a \<times> 's) list" where
  "scored_articles arts sims = zip arts sims"

text \<open>
  \<^verbatim>\<open>sorted(xs, key=key, reverse=True)\<close>: Python reverses the list, sorts it stably in
  ascending order of the key and reverses the result.
\<close>

definition sorted_reverse :: "('a \<Rightarrow> 'k::linorder) \<Rightarrow> 'a list \<Rightarrow> 'a list" where
  "sorted_reverse key xs = rev (sort_key key (rev xs))"

definition sorted_articles :: "('a \<times> 's::linorder) list \<Rightarrow> ('a \<times> 's) list" where
  "sorted_articles scored = sorted_reverse snd scored"

subsection \<open>Step 3: answer\<close>

text \<open>The projected dictionary of one result, its keys in the order of the literal.\<close>

definition formatted_top_results ::
  "('m article_scheme \<times> 's) list \<Rightarrow> (string \<times> string) list list" where
  "formatted_top_results sorted_arts =
     map (\<lambda>(a, score). [(''title'', title a), (''description'', description a), (''url'', url a)])
       (take 5 sorted_arts)"

definition ANSWER_INPUT ::
  "((string \<times> string) list list \<Rightarrow> string) \<Rightarrow> (string \<times> string) list list \<Rightarrow> string \<Rightarrow> string" where
  "ANSWER_INPUT repr top_results user_question =
     (''\<newline>Generate an answer to the user's question based on the given search results. \<newline>'' @
      ''TOP_RESULTS: '') @
     repr top_results @
     ''\<newline>USER_QUESTION: '' @
     user_question @
     (''\<newline>\<newline>Include as much information as possible in the answer. '' @
      ''Reference the relevant search result urls as markdown links.\<newline>'')"

definition answer_request ::
  "((string \<times> string) list list \<Rightarrow> string) \<Rightarrow> ('m article_scheme \<times> 's) list \<Rightarrow> string \<Rightarrow> chat_request" where
  "answer_request repr sorted_arts user_question =
     \<lparr>model = GPT_MODEL,
      messages = [(''user'', ANSWER_INPUT repr (formatted_top_results sorted_arts) user_question)],
      temperature = 1 / 2,
      stream = True\<rparr>"

text \<open>
  A chunk of the stream is the list of its choices; a choice is its \<^verbatim>\<open>delta\<close>
  dictionary. \<^verbatim>\<open>delta.get("content", "")\<close> reads the key with a default.
\<close>

type_synonym chunk = "(string \<times> string) list list"

definition dict_get :: "('k \<times> 'v) list \<Rightarrow> 'k \<Rightarrow> 'v \<Rightarrow> 'v" where
  "dict_get d k dflt = (case map_of d k of None \<Rightarrow> dflt | Some v \<Rightarrow> v)"

text \<open>
  The output area of the cell: the items shown, and whether a
  \<^verbatim>\<open>clear_output(wait=True)\<close> is pending, which empties the area when the next output
  arrives.
\<close>

record output_area =
  shown :: "string list"
  clear_pending :: bool

definition clear_output_wait :: "output_area \<Rightarrow> output_area" where
  "clear_output_wait out = out\<lparr>clear_pending := True\<rparr>"

definition display :: "string \<Rightarrow> output_area \<Rightarrow> output_area" where
  "display md out =
     (if clear_pending out then \<lparr>shown = [md], clear_pending = False\<rparr>
      else out\<lparr>shown := shown out @ [md]\<rparr>)"

text \<open>
  The streaming loop over the chunks received, on the variable \<^verbatim>\<open>text\<close> and the
  output area.
\<close>

fun stream_loop :: "chunk list \<Rightarrow> string \<times> output_area \<Rightarrow> (string \<times> output_area) \<times> error option" where
  "stream_loop [] (text, out) = ((text, out), None)"
| "stream_loop (chunk # rest) (text, out) =
     (case first_choice chunk of
        Inl e \<Rightarrow> ((text, out), Some e)
      | Inr delta \<Rightarrow>
          (let text' = text @ dict_get delta ''content'' '''' in
           stream_loop rest (text', display text' (clear_output_wait out))))"

subsection \<open>Notions used in the statements\<close>

text \<open>
  The elements of a list in the order of their first occurrence, and the last article of
  a list that bears a given URL.
\<close>

fun first_occurrences :: "'a list \<Rightarrow> 'a list" where
  "first_occurrences [] = []"
| "first_occurrences (x # xs) = x # filter (\<lambda>y. y \<noteq> x) (first_occurrences xs)"

definition last_with_url :: "string \<Rightarrow> 'm article_scheme list \<Rightarrow> 'm article_scheme option" where
  "last_with_url u arts = find (\<lambda>b. url b = u) (rev arts)"

text \<open>
  A search response succeeds when its status is \<^verbatim>\<open>ok\<close> and it carries an article list;
  \<open>returned_articles\<close> is that list.
\<close>

definition returned_articles :: "'m search_result \<Rightarrow> 'm article_scheme list" where
  "returned_articles result = (case articles result of None \<Rightarrow> [] | Some new \<Rightarrow> new)"

definition succeeds :: "'m search_result \<Rightarrow> bool" where
  "succeeds result = (status result = Some ''ok'' \<and> articles result \<noteq> None)"

text \<open>The number of texts in an argument of the embedding capability.\<close>

fun input_count :: "embedding_input \<Rightarrow> nat" where
  "input_count (Single s) = 1"
| "input_count (Many texts) = length texts"

text \<open>
  The content a chunk contributes (that of the \<^verbatim>\<open>delta\<close> of its first choice, empty when
  the key is absent) and the concatenation of the contents of a list of chunks.
\<close>

definition chunk_content :: "chunk \<Rightarrow> string" where
  "chunk_content chunk = (case chunk of [] \<Rightarrow> '''' | delta # _ \<Rightarrow> dict_get delta ''content'' '''')"

definition received_text :: "chunk list \<Rightarrow> string" where
  "received_text chunks = concat (map chunk_content chunks)"

subsection \<open>Example inputs\<close>

text \<open>
  A search capability that answers two queries with one article each and fails on every
  other query, a model output with one generated query, an embedding capability that returns
  one vector for each text, and a stream of four chunks.
\<close>

definition demo_search :: "string \<Rightarrow> unit search_result" where
  "demo_search query =
     (if query = ''nba'' then
        \<lparr>status = Some ''ok'',
         articles = Some [\<lparr>title = ''t1'', description = ''d1'', content = ''c1'', url = ''u1''\<rparr>],
         message = None\<rparr>
      else if query = ''finals'' then
        \<lparr>status = Some ''ok'',
         articles = Some [\<lparr>title = ''t2'', description = ''d2'', content = ''c2'', url = ''u2''\<rparr>],
         message = None\<rparr>
      else
        \<lparr>status = Some ''error'',
         articles = Some [\<lparr>title = ''t3'', description = ''d3'', content = ''c3'', url = ''u3''\<rparr>],
         message = Some ''rate limited''\<rparr>)"

definition demo_loads :: "string \<Rightarrow> json option" where
  \<open>demo_loads text =
     (if text = ''{"queries": ["nba finals"]}'' then Some (JObj [(''queries'', JArr [JStr ''nba finals''])])
      else None)\<close>

definition demo_create :: "chat_request \<Rightarrow> string list" where
  \<open>demo_create request = [''{"queries": ["nba finals"]}'']\<close>

definition demo_embedding_create :: "string \<Rightarrow> embedding_input \<Rightarrow> nat list datum list" where
  "demo_embedding_create m input =
     (case input of
        Single s \<Rightarrow> [\<lparr>embedding = [length s]\<rparr>]
      | Many texts \<Rightarrow> map (\<lambda>t. \<lparr>embedding = [length t]\<rparr>) texts)"

definition demo_chunks :: "chunk list" where
  "demo_chunks =
     [[[(''role'', ''assistant'')]], [[(''content'', ''The '')]], [[(''content'', ''Nuggets'')]], [[]]]"

section \<open>Properties\<close>

subsection \<open>Re-ranking\<close>

text \<open>The scoring loop yields one score for each article embedding, in order.\<close>

lemma fold_append_scores:
  "fold (\<lambda>e acc. acc @ [f e]) embs acc0 = acc0 @ map f embs"
  by (induction embs arbitrary: acc0) simp_all

lemma cosine_similarities_map:
  "cosine_similarities dot ha_embedding embs = map (dot ha_embedding) embs"
  by (simp add: cosine_similarities_def fold_append_scores)

lemma sorted_reverse_descending: "sorted_wrt (\<lambda>a b. key a \<ge> key b) (sorted_reverse key xs)"
proof -
  have "sorted (map key (sort_key key (rev xs)))" by simp
  then have "sorted_wrt (\<lambda>a b. key a \<le> key b) (sort_key key (rev xs))"
    by (simp add: sorted_map)
  then show ?thesis
    unfolding sorted_reverse_def by (simp add: sorted_wrt_rev)
qed

lemma sorted_reverse_mset: "mset (sorted_reverse key xs) = mset xs"
  by (simp add: sorted_reverse_def)

lemma sorted_reverse_stable:
  "filter (\<lambda>y. key y = k) (sorted_reverse key xs) = filter (\<lambda>y. key y = k) xs"
  unfolding sorted_reverse_def
  by (simp add: rev_filter [symmetric] sort_key_stable)

text \<open>
  C1: re-ranking returns the scored pairs in descending order of score; it is a
  permutation of its input and it is stable: the pairs of any one score keep their input
  order. For the scores 0.2, 0.9, 0.5 the output is the input indices 1, 2, 0.
\<close>

theorem sorted_articles_descending_stable:
  "sorted_wrt (\<lambda>p r. snd p \<ge> snd r) (sorted_articles xs)
   \<and> mset (sorted_articles xs) = mset xs
   \<and> filter (\<lambda>p. snd p = k) (sorted_articles xs) = filter (\<lambda>p. snd p = k) xs
   \<and> map fst (sorted_articles (scored_articles [0::nat, 1, 2] [2 / 10, 9 / 10, 5 / 10 :: real])) = [1, 2, 0]"
proof -
  have "map fst (sorted_articles (scored_articles [0::nat, 1, 2] [2 / 10, 9 / 10, 5 / 10 :: real])) = [1, 2, 0]"
    by (simp add: sorted_articles_def scored_articles_def sorted_reverse_def)
  then show ?thesis
    unfolding sorted_articles_def
    using sorted_reverse_descending [of snd xs] sorted_reverse_mset [of snd xs]
      sorted_reverse_stable [of snd k xs]
    by simp
qed

subsection \<open>Query expansion\<close>

text \<open>
  C4: whenever the model output yields a list of generated queries, the query list is
  that list followed by the user question; and every query list the cell produces arises
  so, hence it ends with the user question and contains it.
\<close>

theorem queries_end_with_user_question:
  "(generated_queries create loads user_question = Inr (JArr gen) \<longrightarrow>
      queries create loads user_question = Inr (gen @ [JStr user_question]))
   \<and> (queries create loads user_question = Inr qs \<longrightarrow>
        (\<exists>gen. generated_queries create loads user_question = Inr (JArr gen)
           \<and> qs = gen @ [JStr user_question])
        \<and> last qs = JStr user_question \<and> JStr user_question \<in> set qs)"
proof (intro conjI impI)
  assume "generated_queries create loads user_question = Inr (JArr gen)"
  then show "queries create loads user_question = Inr (gen @ [JStr user_question])"
    by (simp add: queries_def)
next
  assume ok: "queries create loads user_question = Inr qs"
  then obtain g where g: "generated_queries create loads user_question = Inr g"
    and app: "append_json g (JStr user_question) = Inr qs"
    by (auto simp: queries_def split: sum.splits)
  from app obtain gen where "g = JArr gen" and qs: "qs = gen @ [JStr user_question]"
    by (cases g) auto
  with g show "\<exists>gen. generated_queries create loads user_question = Inr (JArr gen)
      \<and> qs = gen @ [JStr user_question]"
    by simp
  from qs show "last qs = JStr user_question" by simp
  from qs show "JStr user_question \<in> set qs" by simp
qed

theorem queries_end_with_user_question_witness:
  "queries demo_create demo_loads ''Who won?'' = Inr [JStr ''nba finals'', JStr ''Who won?'']
   \<and> last [JStr ''nba finals'', JStr ''Who won?''] = JStr ''Who won?''
   \<and> JStr ''Who won?'' \<in> set [JStr ''nba finals'', JStr ''Who won?'']"
proof -
  have g: "generated_queries demo_create demo_loads ''Who won?'' = Inr (JArr [JStr ''nba finals''])"
    by (simp add: generated_queries_def json_gpt_def first_choice_def demo_create_def demo_loads_def)
  from queries_end_with_user_question [of demo_create demo_loads "''Who won?''" "[JStr ''nba finals'']"
      "[JStr ''nba finals'', JStr ''Who won?'']"] g
  show ?thesis by simp
qed

subsection \<open>Search loop\<close>

lemma search_loop_succeeding_prefix:
  assumes "\<forall>p \<in> set pre. succeeds (search p)"
  shows "search_loop search (pre @ rest) (arts, sent) =
         search_loop search rest
           (arts @ concat (map (\<lambda>p. returned_articles (search p)) pre), sent @ pre)"
  using assms
proof (induction pre arbitrary: arts sent)
  case Nil
  show ?case by simp
next
  case (Cons p pre)
  from Cons.prems obtain new where "status (search p) = Some ''ok''" "articles (search p) = Some new"
    by (auto simp: succeeds_def)
  moreover from Cons.prems have "\<forall>p \<in> set pre. succeeds (search p)" by simp
  ultimately show ?case
    by (simp add: Cons.IH returned_articles_def)
qed

text \<open>
  C3: when the queries before \<open>query\<close> succeed and the response to \<open>query\<close> has a status
  other than \<^verbatim>\<open>ok\<close> and a message \<open>m\<close>, the loop stops at \<open>query\<close> with the exception
  \<open>Exception m\<close>: the later queries are not sent, the variable \<^verbatim>\<open>articles\<close> holds the
  articles of the earlier queries only, and the cell ends with that exception.
\<close>

theorem search_failure_raises_message:
  assumes "\<forall>p \<in> set pre. succeeds (search p)"
    and "status (search query) = Some s" and "s \<noteq> ''ok''"
    and "message (search query) = Some m"
  shows "search_loop search (pre @ query # post) (arts, sent) =
           ((arts @ concat (map (\<lambda>p. returned_articles (search p)) pre), sent @ pre @ [query]),
            Some (Exception m))
         \<and> search_cell search (pre @ query # post) = Inl (Exception m)"
  using assms(2-4)
  by (simp add: search_cell_def search_loop_succeeding_prefix [OF assms(1)])

theorem search_failure_raises_message_witness:
  "search_loop demo_search [''nba'', ''mvp'', ''finals''] ([], []) =
     (([\<lparr>title = ''t1'', description = ''d1'', content = ''c1'', url = ''u1''\<rparr>], [''nba'', ''mvp'']),
      Some (Exception ''rate limited''))
   \<and> search_cell demo_search [''nba'', ''mvp'', ''finals''] = Inl (Exception ''rate limited'')"
  using search_failure_raises_message
    [of "[''nba'']" demo_search "''mvp''" "''error''" "''rate limited''" "[''finals'']" "[]" "[]"]
  by (simp add: demo_search_def succeeds_def returned_articles_def)

text \<open>
  C6: when the search of every query succeeds, the loop sends the queries one after the
  other in the order of the list, and the variable \<^verbatim>\<open>articles\<close> before the removal of
  duplicates is the concatenation of the article lists returned, in that order.
\<close>

theorem search_loop_accumulates_in_query_order:
  assumes "\<forall>p \<in> set qs. succeeds (search p)"
  shows "search_loop search qs ([], []) =
           ((concat (map (\<lambda>p. returned_articles (search p)) qs), qs), None)
         \<and> search_cell search qs =
             Inr (remove_duplicates (concat (map (\<lambda>p. returned_articles (search p)) qs)))"
  using search_loop_succeeding_prefix [OF assms, of "[]" "[]" "[]"]
  by (simp add: search_cell_def)

theorem search_loop_accumulates_in_query_order_witness:
  "search_loop demo_search [''finals'', ''nba''] ([], []) =
     (([\<lparr>title = ''t2'', description = ''d2'', content = ''c2'', url = ''u2''\<rparr>,
        \<lparr>title = ''t1'', description = ''d1'', content = ''c1'', url = ''u1''\<rparr>], [''finals'', ''nba'']),
      None)"
  using search_loop_accumulates_in_query_order [of "[''finals'', ''nba'']" demo_search]
  by (simp add: demo_search_def succeeds_def returned_articles_def)

subsection \<open>Removal of duplicates\<close>

lemma first_occurrences_snoc:
  "first_occurrences (xs @ [x]) =
     (if x \<in> set xs then first_occurrences xs else first_occurrences xs @ [x])"
  by (induction xs) auto

lemma set_first_occurrences: "set (first_occurrences xs) = set xs"
  by (induction xs) auto

lemma distinct_first_occurrences: "distinct (first_occurrences xs)"
  by (induction xs) (auto simp: set_first_occurrences)

lemma keys_dict_setitem:
  "map fst (dict_setitem d k v) = (if k \<in> set (map fst d) then map fst d else map fst d @ [k])"
  by (induction d k v rule: dict_setitem.induct) auto

lemma map_of_dict_setitem: "map_of (dict_setitem d k v) = (map_of d)(k \<mapsto> v)"
  by (induction d k v rule: dict_setitem.induct) auto

lemma url_dict_snoc: "url_dict (arts @ [a]) = dict_setitem (url_dict arts) (url a) a"
  by (simp add: url_dict_def)

lemma keys_url_dict: "map fst (url_dict arts) = first_occurrences (map url arts)"
proof (induction arts rule: rev_induct)
  case Nil
  show ?case by (simp add: url_dict_def)
next
  case (snoc a arts)
  have "set (map fst (url_dict arts)) = set (map url arts)"
    by (simp add: snoc.IH set_first_occurrences del: set_map)
  then show ?case
    by (simp add: url_dict_snoc keys_dict_setitem first_occurrences_snoc snoc.IH del: set_map)
qed

lemma map_of_url_dict: "map_of (url_dict arts) u = last_with_url u arts"
proof (induction arts rule: rev_induct)
  case Nil
  show ?case by (simp add: url_dict_def last_with_url_def)
next
  case (snoc a arts)
  then show ?case
    by (simp add: url_dict_snoc map_of_dict_setitem last_with_url_def)
qed

lemma last_with_url_Some: "last_with_url u arts = Some a \<Longrightarrow> url a = u"
  unfolding last_with_url_def by (auto simp: find_Some_iff)

lemma url_dict_entry:
  assumes "p \<in> set (url_dict arts)"
  shows "last_with_url (fst p) arts = Some (snd p)" and "url (snd p) = fst p"
proof -
  have "distinct (map fst (url_dict arts))"
    by (simp add: keys_url_dict distinct_first_occurrences)
  with assms have "map_of (url_dict arts) (fst p) = Some (snd p)"
    using map_of_is_SomeI [of "url_dict arts" "fst p" "snd p"] by simp
  then show "last_with_url (fst p) arts = Some (snd p)"
    by (simp add: map_of_url_dict)
  then show "url (snd p) = fst p"
    by (simp add: last_with_url_Some)
qed

lemma urls_remove_duplicates:
  "map url (remove_duplicates arts) = first_occurrences (map url arts)"
proof -
  have "map url (remove_duplicates arts) = map fst (url_dict arts)"
    by (simp add: remove_duplicates_def dict_values_def url_dict_entry(2))
  then show ?thesis by (simp add: keys_url_dict)
qed

lemma remove_duplicates_last:
  "map (\<lambda>a. last_with_url (url a) arts) (remove_duplicates arts) = map Some (remove_duplicates arts)"
  by (simp add: remove_duplicates_def dict_values_def url_dict_entry)

text \<open>
  C2: the deduplicated list has exactly one article for each URL of the input, and each
  of its articles is the last article of the input that bears its URL.
\<close>

theorem remove_duplicates_one_per_url_last_wins:
  "distinct (map url (remove_duplicates arts))
   \<and> set (map url (remove_duplicates arts)) = set (map url arts)
   \<and> map (\<lambda>a. last_with_url (url a) arts) (remove_duplicates arts) = map Some (remove_duplicates arts)"
  using remove_duplicates_last [of arts]
  by (simp add: urls_remove_duplicates distinct_first_occurrences set_first_occurrences del: set_map)

text \<open>
  C10: the deduplicated articles stand in the order in which their URLs first occur in
  the input, while each article is the last one of the input with its URL. In the
  example the URL \<open>u1\<close> keeps the first position and carries the later article.
\<close>

theorem remove_duplicates_first_occurrence_order:
  "map url (remove_duplicates arts) = first_occurrences (map url arts)
   \<and> map Some (remove_duplicates arts) = map (\<lambda>u. last_with_url u arts) (first_occurrences (map url arts))
   \<and> remove_duplicates
       [\<lparr>title = ''A1'', description = ''d'', content = ''c'', url = ''u1''\<rparr>,
        \<lparr>title = ''B'', description = ''d'', content = ''c'', url = ''u2''\<rparr>,
        \<lparr>title = ''A2'', description = ''d'', content = ''c'', url = ''u1''\<rparr>]
     = [\<lparr>title = ''A2'', description = ''d'', content = ''c'', url = ''u1''\<rparr>,
        \<lparr>title = ''B'', description = ''d'', content = ''c'', url = ''u2''\<rparr>]"
proof -
  have "map (\<lambda>u. last_with_url u arts) (first_occurrences (map url arts))
        = map (\<lambda>a. last_with_url (url a) arts) (remove_duplicates arts)"
    by (simp add: urls_remove_duplicates [symmetric] comp_def)
  then show ?thesis
    by (simp add: urls_remove_duplicates remove_duplicates_last)
       (simp add: remove_duplicates_def dict_values_def url_dict_def)
qed

subsection \<open>Embedding inputs\<close>

lemma first_choice_one: "length xs = 1 \<Longrightarrow> \<exists>e. first_choice xs = Inr e"
  by (cases xs) (simp_all add: first_choice_def)

text \<open>
  C5, as stated, fails: the text of an article is not the plain concatenation of title,
  description and content; the f-string puts a space between them.
\<close>

theorem article_text_not_plain_concatenation:
  "article_text \<lparr>title = ''a'', description = ''b'', content = ''c'', url = ''u''\<rparr>
   \<noteq> title \<lparr>title = ''a'', description = ''b'', content = ''c'', url = ''u''\<rparr>
     @ description \<lparr>title = ''a'', description = ''b'', content = ''c'', url = ''u''\<rparr>
     @ take 100 (content \<lparr>title = ''a'', description = ''b'', content = ''c'', url = ''u''\<rparr>)"
  by (simp add: article_text_def)

text \<open>
  C5, amended: the text of an article is its title, a space, its description, a space and
  the first 100 characters of its content; one call of the embedding capability receives
  the list of these texts, one for each article, and another call receives the
  hypothetical answer. When the capability returns one vector for each text, there is one
  embedding for each article and one for the hypothetical answer.
\<close>

theorem article_text_spaced_one_input_per_article:
  "article_text a = title a @ '' '' @ description a @ '' '' @ take 100 (content a)
   \<and> length (article_text a) = length (title a) + length (description a) + 2 + min 100 (length (content a))
   \<and> article_embeddings embedding_create arts =
       map embedding (embedding_create ''text-embedding-ada-002'' (Many (map article_text arts)))
   \<and> input_count (Many (map article_text arts)) = length arts
   \<and> hypothetical_answer_embedding embedding_create answer =
       first_choice (map embedding (embedding_create ''text-embedding-ada-002'' (Single answer)))
   \<and> ((\<forall>input. length (embedding_create ''text-embedding-ada-002'' input) = input_count input) \<longrightarrow>
        length (article_embeddings embedding_create arts) = length arts
        \<and> (\<exists>e. hypothetical_answer_embedding embedding_create answer = Inr e))"
proof -
  have "\<exists>e. hypothetical_answer_embedding embedding_create answer = Inr e"
    if "\<forall>input. length (embedding_create ''text-embedding-ada-002'' input) = input_count input"
  proof -
    from that have "length (embedding_create ''text-embedding-ada-002'' (Single answer)) = 1"
      by simp
    then show ?thesis
      by (simp add: hypothetical_answer_embedding_def embeddings_def first_choice_one)
  qed
  then show ?thesis
    by (simp add: article_text_def article_embeddings_def hypothetical_answer_embedding_def
        embeddings_def min_def)
qed

theorem article_text_spaced_one_input_per_article_witness:
  "length (article_embeddings demo_embedding_create
      [\<lparr>title = ''a'', description = ''b'', content = ''c'', url = ''u''\<rparr>,
       \<lparr>title = ''d'', description = ''e'', content = ''f'', url = ''v''\<rparr>]) = 2
   \<and> hypothetical_answer_embedding demo_embedding_create ''TEAM won'' = Inr [8]"
proof -
  have h: "\<forall>input. length (demo_embedding_create ''text-embedding-ada-002'' input) = input_count input"
    by (simp add: demo_embedding_create_def split: embedding_input.splits)
  have "hypothetical_answer_embedding demo_embedding_create ''TEAM won'' = Inr [8]"
    by (simp add: hypothetical_answer_embedding_def embeddings_def demo_embedding_create_def
        first_choice_def)
  with h article_text_spaced_one_input_per_article [of "\<lparr>title = ''a'', description = ''b'', content = ''c'', url = ''u''\<rparr>" demo_embedding_create
      "[\<lparr>title = ''a'', description = ''b'', content = ''c'', url = ''u''\<rparr>,
        \<lparr>title = ''d'', description = ''e'', content = ''f'', url = ''v''\<rparr>]" "''TEAM won''"]
  show ?thesis by simp
qed

subsection \<open>Answer synthesis\<close>

text \<open>
  C7: the results passed on are the first five ranked articles (all of them when there
  are fewer), each as a dictionary with exactly the keys title, description and url;
  neither the content nor the score of an article nor any article after the fifth has an
  influence. The request has one user message: a fixed template around the rendering of
  these dictionaries and the user question.
\<close>

theorem formatted_top_results_top5_projection:
  "formatted_top_results sorted_arts =
     map (\<lambda>p. [(''title'', title (fst p)), (''description'', description (fst p)), (''url'', url (fst p))])
       (take 5 sorted_arts)
   \<and> length (formatted_top_results sorted_arts) = min 5 (length sorted_arts)
   \<and> map (map fst) (formatted_top_results sorted_arts) =
       replicate (min 5 (length sorted_arts)) [''title'', ''description'', ''url'']
   \<and> formatted_top_results (map (\<lambda>(a, s). (a\<lparr>content := c a s\<rparr>, g a s)) sorted_arts) =
       formatted_top_results sorted_arts
   \<and> formatted_top_results (take 5 sorted_arts) = formatted_top_results sorted_arts
   \<and> answer_request repr sorted_arts user_question =
       \<lparr>model = ''gpt-3.5-turbo'',
        messages = [(''user'', ANSWER_INPUT repr (formatted_top_results sorted_arts) user_question)],
        temperature = 1 / 2, stream = True\<rparr>
   \<and> (\<exists>pre mid post. \<forall>top_results question.
         ANSWER_INPUT repr top_results question = pre @ repr top_results @ mid @ question @ post)"
proof -
  have keys: "map (map fst) (formatted_top_results sorted_arts) =
       replicate (min 5 (length sorted_arts)) [''title'', ''description'', ''url'']"
    by (simp add: formatted_top_results_def case_prod_beta comp_def map_replicate_const min.commute)
  have indep: "formatted_top_results (map (\<lambda>(a, s). (a\<lparr>content := c a s\<rparr>, g a s)) sorted_arts) =
       formatted_top_results sorted_arts"
    by (simp add: formatted_top_results_def case_prod_beta comp_def take_map)
  have template: "\<exists>pre mid post. \<forall>top_results question.
         ANSWER_INPUT repr top_results question = pre @ repr top_results @ mid @ question @ post"
    unfolding ANSWER_INPUT_def
    by (intro exI allI) (rule refl)
  show ?thesis
    using keys indep template
    by (simp add: formatted_top_results_def case_prod_beta answer_request_def GPT_MODEL_def min.commute)
qed

lemma stream_loop_append:
  "stream_loop (pre @ post) s =
     (case stream_loop pre s of (s', None) \<Rightarrow> stream_loop post s' | (s', Some e) \<Rightarrow> (s', Some e))"
proof (induction pre arbitrary: s)
  case Nil
  show ?case by (cases s) simp
next
  case (Cons c pre)
  show ?case
    by (cases s) (simp add: Cons.IH Let_def split: sum.splits)
qed

lemma stream_loop_run:
  assumes "\<forall>c \<in> set chunks. c \<noteq> []"
  shows "stream_loop chunks (t, out) =
           ((t @ received_text chunks,
             if chunks = [] then out
             else \<lparr>shown = [t @ received_text chunks], clear_pending = False\<rparr>),
            None)"
  using assms
proof (induction chunks arbitrary: t out)
  case Nil
  show ?case by (simp add: received_text_def)
next
  case (Cons c chunks)
  from Cons.prems obtain delta others where c: "c = delta # others"
    by (cases c) auto
  from Cons.prems have rest: "\<forall>c \<in> set chunks. c \<noteq> []" by simp
  show ?case
    by (simp add: c first_choice_def Cons.IH [OF rest] received_text_def chunk_content_def Let_def
        display_def clear_output_wait_def)
qed

text \<open>
  C8: when every chunk has a choice, the loop ends without an exception with the variable
  \<^verbatim>\<open>text\<close> equal to the concatenation of the contents of all chunks in the order of
  arrival. After each chunk the output area shows one item, the text accumulated so far,
  in place of whatever it showed before. The state after the first \<open>n\<close> chunks is the one
  the whole run passes through.
\<close>

theorem stream_loop_accumulates_and_redisplays:
  assumes "\<forall>c \<in> set chunks. c \<noteq> []"
  shows "stream_loop chunks ('''', out) =
           ((received_text chunks,
             if chunks = [] then out else \<lparr>shown = [received_text chunks], clear_pending = False\<rparr>),
            None)
         \<and> (\<forall>n < length chunks.
               stream_loop (take (Suc n) chunks) ('''', out) =
                 ((received_text (take (Suc n) chunks),
                   \<lparr>shown = [received_text (take (Suc n) chunks)], clear_pending = False\<rparr>),
                  None))
         \<and> stream_loop chunks ('''', out) =
             (case stream_loop (take n chunks) ('''', out) of
                (s, None) \<Rightarrow> stream_loop (drop n chunks) s
              | (s, Some e) \<Rightarrow> (s, Some e))"
proof (intro conjI allI impI)
  show "stream_loop chunks ('''', out) =
           ((received_text chunks,
             if chunks = [] then out else \<lparr>shown = [received_text chunks], clear_pending = False\<rparr>),
            None)"
    using stream_loop_run [OF assms, of "''''" out] by simp
next
  fix k assume "k < length chunks"
  then have ne: "take (Suc k) chunks \<noteq> []" by (cases chunks) auto
  have "\<forall>c \<in> set (take (Suc k) chunks). c \<noteq> []"
    using assms by (auto dest: in_set_takeD)
  from stream_loop_run [OF this, of "''''" out] ne
  show "stream_loop (take (Suc k) chunks) ('''', out) =
                 ((received_text (take (Suc k) chunks),
                   \<lparr>shown = [received_text (take (Suc k) chunks)], clear_pending = False\<rparr>),
                  None)"
    by simp
next
  show "stream_loop chunks ('''', out) =
             (case stream_loop (take n chunks) ('''', out) of
                (s, None) \<Rightarrow> stream_loop (drop n chunks) s
              | (s, Some e) \<Rightarrow> (s, Some e))"
    using stream_loop_append [of "take n chunks" "drop n chunks" "('''', out)"] by simp
qed

theorem stream_loop_accumulates_and_redisplays_witness:
  "stream_loop demo_chunks ('''', \<lparr>shown = [''earlier output''], clear_pending = False\<rparr>) =
     ((''The Nuggets'', \<lparr>shown = [''The Nuggets''], clear_pending = False\<rparr>), None)
   \<and> stream_loop (take 2 demo_chunks) ('''', \<lparr>shown = [''earlier output''], clear_pending = False\<rparr>) =
     ((''The '', \<lparr>shown = [''The ''], clear_pending = False\<rparr>), None)"
proof -
  have h: "\<forall>c \<in> set demo_chunks. c \<noteq> []"
    by (simp add: demo_chunks_def)
  have r: "received_text demo_chunks = ''The Nuggets''"
    "received_text (take 2 demo_chunks) = ''The ''"
    by (simp_all add: demo_chunks_def received_text_def chunk_content_def dict_get_def)
  have l: "(1::nat) < length demo_chunks" "demo_chunks \<noteq> []"
    by (simp_all add: demo_chunks_def)
  from stream_loop_accumulates_and_redisplays [OF h, of "\<lparr>shown = [''earlier output''], clear_pending = False\<rparr>" 0] r l
  show ?thesis
    by (simp add: numeral_2_eq_2)
qed

end
